theory Spec2Isabelle
  imports Main "HOL-Library.Multiset" "HOL-Library.Sublist"
begin

section \<open>Data model of the TodoList component\<close>

text \<open>
  The \<^verbatim>\<open>Todo\<close> type of \<^verbatim>\<open>TodoList.tsx\<close>: \<^verbatim>\<open>{ id: string; text: string; completed: boolean }\<close>.
  The fields \<^verbatim>\<open>id\<close> and \<^verbatim>\<open>text\<close> carry a suffix, since both names are taken in
  Isabelle. Strings are lists of code units below 256.
\<close>

record todo =
  id_t :: string
  text_t :: string
  completed :: bool

text \<open>\<^verbatim>\<open>type Filter = "all" | "active" | "completed"\<close>\<close>

datatype Filter = FilterAll | FilterActive | FilterCompleted

text \<open>
  The six \<^verbatim>\<open>useState\<close> cells of the component. \<open>todos_ref\<close> is not a cell of its own:
  it stands for the identity of the array held in \<open>todos\<close>, which React compares
  (\<^verbatim>\<open>Object.is\<close>) to decide whether the effect with dependencies
  \<^verbatim>\<open>[todos, hasLoaded]\<close> runs again. Every \<^verbatim>\<open>setTodos\<close> call of the source passes a newly
  built array, so every call moves it.
\<close>

record state =
  todos :: "todo list"
  todos_ref :: nat
  inputValue :: string
  filter_st :: Filter
  editingId :: "string option"
  editValue :: string
  hasLoaded :: bool

definition init_state :: state where
  "init_state =
     \<lparr>todos = [], todos_ref = 0, inputValue = [], filter_st = FilterAll,
      editingId = None, editValue = [], hasLoaded = False\<rparr>"

definition setTodos :: "todo list \<Rightarrow> state \<Rightarrow> state" where
  "setTodos ts st = st\<lparr>todos := ts, todos_ref := Suc (todos_ref st)\<rparr>"

section \<open>String primitives of the platform\<close>

text \<open>
  \<^verbatim>\<open>String.prototype.trim\<close> strips white space and line terminators from both ends.
  Of the code units it strips, those below 256 are TAB, LF, VT, FF, CR, SPACE and
  NO-BREAK SPACE.
\<close>

definition is_space :: "char \<Rightarrow> bool" where
  "is_space c \<longleftrightarrow>
     c = CHR 0x09 \<or> c = CHR 0x0A \<or> c = CHR 0x0B \<or> c = CHR 0x0C \<or> c = CHR 0x0D \<or>
     c = CHR 0x20 \<or> c = CHR 0xA0"

definition trim :: "string \<Rightarrow> string" where
  "trim s = rev (dropWhile is_space (rev (dropWhile is_space s)))"

text \<open>A string used as a condition is true exactly when it is not empty.\<close>

definition truthy :: "string \<Rightarrow> bool" where
  "truthy s \<longleftrightarrow> s \<noteq> []"

section \<open>Id generation\<close>

text \<open>
  \<^verbatim>\<open>generateId\<close> reads sources outside the program. One call sees: the result of
  \<^verbatim>\<open>crypto.randomUUID()\<close> when \<^verbatim>\<open>crypto\<close> and that method exist (\<open>None\<close> otherwise),
  the decimal rendering of \<^verbatim>\<open>Date.now()\<close>, and two draws of
  \<^verbatim>\<open>Math.random().toString(36).substring(2, 15)\<close>.
\<close>

record entropy =
  randomUUID :: "string option"
  date_now :: string
  random_a :: string
  random_b :: string

definition generateId :: "entropy \<Rightarrow> string" where
  "generateId e =
     (case randomUUID e of
        Some uuid \<Rightarrow> uuid
      | None \<Rightarrow> date_now e @ ''-'' @ random_a e @ ''-'' @ random_b e)"

section \<open>Handlers of the component\<close>

text \<open>
  The handlers are closures over the state of the last render and end in calls of the
  state setters; here each takes the state and returns the state after those calls.
  The second source file is the same component without editing and persistence: its
  \<^verbatim>\<open>generateId\<close>, \<^verbatim>\<open>addTodo\<close>, \<^verbatim>\<open>toggleTodo\<close>, \<^verbatim>\<open>deleteTodo\<close>, \<^verbatim>\<open>filteredTodos\<close> and
  \<^verbatim>\<open>activeCount\<close> are word for word the ones modelled here.
\<close>

definition addTodo :: "entropy \<Rightarrow> state \<Rightarrow> state" where
  "addTodo e st =
     (if truthy (trim (inputValue st)) then
        let newTodo = \<lparr>id_t = generateId e, text_t = trim (inputValue st), completed = False\<rparr>
        in (setTodos (todos st @ [newTodo]) st)\<lparr>inputValue := []\<rparr>
      else st)"

definition toggleTodo :: "string \<Rightarrow> state \<Rightarrow> state" where
  "toggleTodo i st =
     setTodos
       (map (\<lambda>todo. if id_t todo = i then todo\<lparr>completed := \<not> completed todo\<rparr> else todo)
          (todos st))
       st"

definition deleteTodo :: "string \<Rightarrow> state \<Rightarrow> state" where
  "deleteTodo i st = setTodos (filter (\<lambda>todo. id_t todo \<noteq> i) (todos st)) st"

definition startEdit :: "todo \<Rightarrow> state \<Rightarrow> state" where
  "startEdit todo st = st\<lparr>editingId := Some (id_t todo), editValue := text_t todo\<rparr>"

definition cancelEdit :: "state \<Rightarrow> state" where
  "cancelEdit st = st\<lparr>editingId := None, editValue := []\<rparr>"

definition saveEdit :: "string \<Rightarrow> state \<Rightarrow> state" where
  "saveEdit i st =
     (if truthy (trim (editValue st)) then
        (setTodos
           (map (\<lambda>todo. if id_t todo = i then todo\<lparr>text_t := trim (editValue st)\<rparr> else todo)
              (todos st))
           st)\<lparr>editingId := None, editValue := []\<rparr>
      else cancelEdit st)"

text \<open>
  The two places of the markup that call \<^verbatim>\<open>startEdit\<close>. The text of an item has
  \<^verbatim>\<open>onDoubleClick={() => !todo.completed && startEdit(todo)}\<close>. The Edit button has
  \<^verbatim>\<open>onClick={() => startEdit(todo)}\<close> and \<^verbatim>\<open>disabled={todo.completed}\<close>; a disabled
  button delivers no click, so its handler runs for items that are not completed only.
\<close>

definition onDoubleClick_text :: "todo \<Rightarrow> state \<Rightarrow> state" where
  "onDoubleClick_text todo st = (if \<not> completed todo then startEdit todo st else st)"

definition onClick_edit :: "todo \<Rightarrow> state \<Rightarrow> state" where
  "onClick_edit todo st = (if completed todo then st else startEdit todo st)"

section \<open>Derived views\<close>

definition filteredTodos :: "state \<Rightarrow> todo list" where
  "filteredTodos st =
     filter
       (\<lambda>todo. if filter_st st = FilterActive then \<not> completed todo
               else if filter_st st = FilterCompleted then completed todo
               else True)
       (todos st)"

definition activeCount :: "state \<Rightarrow> nat" where
  "activeCount st = length (filter (\<lambda>todo. \<not> completed todo) (todos st))"

section \<open>Values at run time\<close>

text \<open>
  \<^verbatim>\<open>JSON.parse\<close> returns a value of type \<^verbatim>\<open>any\<close>, and \<^verbatim>\<open>loadTodosFromStorage\<close> hands it
  on under the declared type \<^verbatim>\<open>Todo[]\<close> with no check. So the store adapter is modelled
  over the values JSON can denote. Numbers are left abstract: nothing here computes
  with them.
\<close>

typedecl jsnumber

datatype jsval =
    JNull
  | JBool bool
  | JNum jsnumber
  | JStr string
  | JArr "jsval list"
  | JObj "(string \<times> jsval) list"

text \<open>A \<^verbatim>\<open>Todo\<close> and a \<^verbatim>\<open>Todo[]\<close> as run-time values, properties in the order the code writes them.\<close>

definition todo_val :: "todo \<Rightarrow> jsval" where
  "todo_val t =
     JObj [(''id'', JStr (id_t t)), (''text'', JStr (text_t t)), (''completed'', JBool (completed t))]"

definition todos_val :: "todo list \<Rightarrow> jsval" where
  "todos_val ts = JArr (map todo_val ts)"

section \<open>The platform: \<^verbatim>\<open>window\<close>, \<^verbatim>\<open>localStorage\<close>, \<^verbatim>\<open>JSON\<close>\<close>

datatype exn = SecurityError | QuotaExceededError | SyntaxError

text \<open>
  What the program cannot see into. \<open>window_defined\<close> is \<^verbatim>\<open>typeof window !== "undefined"\<close>.
  \<open>getItem_raises\<close> tells whether reading \<^verbatim>\<open>localStorage\<close> raises (storage access denied),
  \<open>setItem_raises key value\<close> whether this write raises (quota exceeded, storage
  denied). \<open>JSON_parse\<close> and \<open>JSON_stringify\<close> are the two library functions;
  \<open>JSON_parse\<close> raises \<^verbatim>\<open>SyntaxError\<close> on text that is not JSON.
\<close>

record platform =
  window_defined :: bool
  getItem_raises :: bool
  setItem_raises :: "string \<Rightarrow> string \<Rightarrow> bool"
  JSON_parse :: "string \<Rightarrow> exn + jsval"
  JSON_stringify :: "jsval \<Rightarrow> string"

text \<open>The contents of \<^verbatim>\<open>localStorage\<close>: \<^verbatim>\<open>getItem\<close> gives \<^verbatim>\<open>null\<close> for a key that is not there.\<close>

type_synonym storage = "string \<Rightarrow> string option"

definition localStorage_getItem :: "platform \<Rightarrow> storage \<Rightarrow> string \<Rightarrow> exn + string option" where
  "localStorage_getItem p s key = (if getItem_raises p then Inl SecurityError else Inr (s key))"

definition localStorage_setItem :: "platform \<Rightarrow> storage \<Rightarrow> string \<Rightarrow> string \<Rightarrow> exn + storage" where
  "localStorage_setItem p s key v =
     (if setItem_raises p key v then Inl QuotaExceededError else Inr (s(key \<mapsto> v)))"

text \<open>\<^verbatim>\<open>try { body } catch { handler }\<close>\<close>

definition try_catch :: "exn + 'a \<Rightarrow> (exn \<Rightarrow> exn + 'a) \<Rightarrow> exn + 'a" where
  "try_catch body handler = (case body of Inl e \<Rightarrow> handler e | Inr v \<Rightarrow> Inr v)"

section \<open>Store adapter\<close>

definition STORAGE_KEY :: string where
  "STORAGE_KEY = ''todos''"

definition loadTodosFromStorage :: "platform \<Rightarrow> storage \<Rightarrow> exn + jsval" where
  "loadTodosFromStorage p s =
     (if \<not> window_defined p then Inr (JArr [])
      else
        try_catch
          (case localStorage_getItem p s STORAGE_KEY of
             Inl e \<Rightarrow> Inl e
           | Inr stored \<Rightarrow>
               (case stored of
                  None \<Rightarrow> Inr (JArr [])
                | Some text \<Rightarrow> if truthy text then JSON_parse p text else Inr (JArr [])))
          (\<lambda>e. Inr (JArr [])))"

text \<open>The function returns nothing; its result here is the storage it leaves.\<close>

definition saveTodosToStorage :: "platform \<Rightarrow> storage \<Rightarrow> jsval \<Rightarrow> exn + storage" where
  "saveTodosToStorage p s v =
     (if \<not> window_defined p then Inr s
      else
        try_catch
          (localStorage_setItem p s STORAGE_KEY (JSON_stringify p v))
          (\<lambda>e. Inr s))"

section \<open>The component under React\<close>

text \<open>
  What the markup can send to the handlers. The checkbox of an item is disabled while
  that item is being edited; \<^verbatim>\<open>handleKeyDown\<close> and \<^verbatim>\<open>handleEditKeyDown\<close> look at the
  key; leaving the edit field (\<^verbatim>\<open>onBlur\<close>) calls \<^verbatim>\<open>saveEdit\<close>.
\<close>

definition handleKeyDown :: "string \<Rightarrow> entropy \<Rightarrow> state \<Rightarrow> state" where
  "handleKeyDown key e st = (if key = ''Enter'' then addTodo e st else st)"

definition handleEditKeyDown :: "string \<Rightarrow> string \<Rightarrow> state \<Rightarrow> state" where
  "handleEditKeyDown key i st =
     (if key = ''Enter'' then saveEdit i st
      else if key = ''Escape'' then cancelEdit st
      else st)"

definition onChange_checkbox :: "todo \<Rightarrow> state \<Rightarrow> state" where
  "onChange_checkbox todo st =
     (if editingId st = Some (id_t todo) then st else toggleTodo (id_t todo) st)"

datatype intent =
    ChangeInput string
  | KeyDownInput string entropy
  | ClickAdd entropy
  | ClickFilter Filter
  | ChangeCheckbox todo
  | DoubleClickText todo
  | ClickEdit todo
  | ClickDelete todo
  | ChangeEdit string
  | KeyDownEdit string string
  | BlurEdit string

fun handle :: "intent \<Rightarrow> state \<Rightarrow> state" where
  "handle (ChangeInput v) st = st\<lparr>inputValue := v\<rparr>"
| "handle (KeyDownInput key e) st = handleKeyDown key e st"
| "handle (ClickAdd e) st = addTodo e st"
| "handle (ClickFilter f) st = st\<lparr>filter_st := f\<rparr>"
| "handle (ChangeCheckbox todo) st = onChange_checkbox todo st"
| "handle (DoubleClickText todo) st = onDoubleClick_text todo st"
| "handle (ClickEdit todo) st = onClick_edit todo st"
| "handle (ClickDelete todo) st = deleteTodo (id_t todo) st"
| "handle (ChangeEdit v) st = st\<lparr>editValue := v\<rparr>"
| "handle (KeyDownEdit key i) st = handleEditKeyDown key i st"
| "handle (BlurEdit i) st = saveEdit i st"

text \<open>
  The calls that reach the store adapter are kept in the world, in the order they are
  made, next to the storage. Of the component the world holds \<open>shown\<close>, the state of
  the last render that React committed: the handlers and the effects are closures over
  it. \<open>issued\<close> holds, for every run of a handler or of the first effect so far, the
  state that its setter calls ask for: the state of its closure with the cells it set
  replaced. \<open>untyped\<close> tells that a value loaded was not a \<^verbatim>\<open>Todo[]\<close>, so that \<^verbatim>\<open>todos\<close>
  may hold a value outside its declared type.
\<close>

datatype call = LoadCall | SaveCall jsval

record world =
  shown :: state
  issued :: "state list"
  store :: storage
  calls :: "call list"
  untyped :: bool

definition init_world :: "storage \<Rightarrow> world" where
  "init_world s0 = \<lparr>shown = init_state, issued = [], store = s0, calls = [], untyped = False\<rparr>"

text \<open>A handler runs with the state shown and queues its updates.\<close>

definition dispatch :: "intent \<Rightarrow> world \<Rightarrow> world" where
  "dispatch ev w = w\<lparr>issued := handle ev (shown w) # issued w\<rparr>"

text \<open>
  The first effect, when \<^verbatim>\<open>loadTodosFromStorage()\<close> has returned the collection \<open>ts\<close>:
  the call is made, and \<^verbatim>\<open>setTodos(loadedTodos)\<close> and \<^verbatim>\<open>setHasLoaded(true)\<close> are queued.
\<close>

definition loadEffect :: "todo list \<Rightarrow> world \<Rightarrow> world" where
  "loadEffect ts w =
     w\<lparr>calls := calls w @ [LoadCall],
       issued := (setTodos ts (shown w))\<lparr>hasLoaded := True\<rparr> # issued w\<rparr>"

text \<open>
  The second effect, \<^verbatim>\<open>if (hasLoaded) saveTodosToStorage(todos)\<close>, run with the state \<open>st\<close>
  of the render it belongs to. A raise that escaped \<^verbatim>\<open>saveTodosToStorage\<close> would leave
  the storage as it was.
\<close>

definition persistEffect :: "platform \<Rightarrow> state \<Rightarrow> world \<Rightarrow> world" where
  "persistEffect p st w =
     (if hasLoaded st then
        w\<lparr>store := (case saveTodosToStorage p (store w) (todos_val (todos st)) of
                      Inr s' \<Rightarrow> s'
                    | Inl e \<Rightarrow> store w),
          calls := calls w @ [SaveCall (todos_val (todos st))]\<rparr>
      else w)"

text \<open>
  The states a render can have. Every setter call of the source passes a value, never
  a function of the previous state, so whatever updates a render takes and in whatever
  order, each cell ends as it is in one of the states \<open>srcs\<close>: the initial state, the
  state shown, or a state asked for by a queued update. The array in \<open>todos\<close> and its
  identity go together.
\<close>

definition renders_from :: "state list \<Rightarrow> state \<Rightarrow> bool" where
  "renders_from srcs st' \<longleftrightarrow>
     (\<exists>s \<in> set srcs. todos st' = todos s \<and> todos_ref st' = todos_ref s)
     \<and> (\<exists>s \<in> set srcs. inputValue st' = inputValue s)
     \<and> (\<exists>s \<in> set srcs. filter_st st' = filter_st s)
     \<and> (\<exists>s \<in> set srcs. editingId st' = editingId s)
     \<and> (\<exists>s \<in> set srcs. editValue st' = editValue s)
     \<and> (\<exists>s \<in> set srcs. hasLoaded st' = hasLoaded s)"

text \<open>
  One step of the component under React. When React renders, which queued updates a
  render takes (that depends on the priority of the event behind each update), and
  when it runs an effect are React's choices; the steps leave all of them open, so
  that every order React can choose is among the runs.

  \<^item> \<open>handler\<close>: a handler runs, at any time after the first render.
  \<^item> \<open>load_effect\<close>: the first effect runs and the value loaded is a \<^verbatim>\<open>Todo[]\<close>. Its
    dependency list is empty: React runs it after mounting, once, and once more in a
    development build under strict mode. Here it may run at any time.
  \<^item> \<open>load_effect_untyped\<close>: the same when the value loaded is not a \<^verbatim>\<open>Todo[]\<close>. What
    the handlers and the markup do with such a value is not followed; whatever it is,
    the adapter is reached through the second effect alone, so from then on any value
    may be saved (\<open>untyped_save\<close>).
  \<^item> \<open>commit\<close>: React commits a render.
  \<^item> \<open>persist\<close>: the second effect runs with the state shown. React runs it after a
    commit in which \<^verbatim>\<open>todos\<close> or \<^verbatim>\<open>hasLoaded\<close> is not what it was. Here it may run at any
    time.
\<close>

inductive step :: "platform \<Rightarrow> world \<Rightarrow> world \<Rightarrow> bool" for p :: platform where
  handler:
    "step p w (dispatch ev w)"
| load_effect:
    "loadTodosFromStorage p (store w) = Inr (todos_val ts) \<Longrightarrow>
     step p w (loadEffect ts w)"
| load_effect_untyped:
    "loadTodosFromStorage p (store w) = Inr v \<Longrightarrow>
     v \<notin> range todos_val \<Longrightarrow>
     step p w (w\<lparr>calls := calls w @ [LoadCall], untyped := True\<rparr>)"
| untyped_save:
    "untyped w \<Longrightarrow>
     saveTodosToStorage p (store w) v = Inr s' \<Longrightarrow>
     step p w (w\<lparr>store := s', calls := calls w @ [SaveCall v]\<rparr>)"
| commit:
    "renders_from (init_state # shown w # issued w) st' \<Longrightarrow>
     step p w (w\<lparr>shown := st'\<rparr>)"
| persist:
    "step p w (persistEffect p (shown w) w)"

inductive reachable :: "platform \<Rightarrow> storage \<Rightarrow> world \<Rightarrow> bool" for p :: platform and s0 :: storage where
  reach_init: "reachable p s0 (init_world s0)"
| reach_step: "reachable p s0 w \<Longrightarrow> step p w w' \<Longrightarrow> reachable p s0 w'"

text \<open>
  The invariant behind the start-up order. Either no call has reached the adapter: then
  the storage is the one the component started with, and \<^verbatim>\<open>hasLoaded\<close> is false in the
  state shown and in every state a queued update asks for. Or the calls begin with a
  load.
\<close>

definition load_first :: "storage \<Rightarrow> world \<Rightarrow> bool" where
  "load_first s0 w \<longleftrightarrow>
     (calls w = [] \<and> store w = s0 \<and> \<not> untyped w \<and> \<not> hasLoaded (shown w)
        \<and> (\<forall>s \<in> set (issued w). \<not> hasLoaded s))
     \<or> (\<exists>cs. calls w = LoadCall # cs)"

section \<open>Sample data for the examples\<close>

text \<open>
  One item, the text \<^verbatim>\<open>JSON.stringify\<close> gives for the collection holding it, and a
  platform with a working store whose two JSON functions agree with the real ones on
  the few texts and values the examples use.
\<close>

definition sample_item :: todo where
  "sample_item = \<lparr>id_t = ''a'', text_t = ''x'', completed = False\<rparr>"

definition sample_blob :: string where
  \<open>sample_blob = ''[{"id":"a","text":"x","completed":false}]''\<close>

definition sample_parse :: "string \<Rightarrow> exn + jsval" where
  "sample_parse text =
     (if text = sample_blob then Inr (todos_val [sample_item])
      else if text = ''[]'' then Inr (JArr [])
      else if text = ''null'' then Inr JNull
      else Inl SyntaxError)"

definition sample_stringify :: "jsval \<Rightarrow> string" where
  "sample_stringify v =
     (if v = JArr [] then ''[]'' else if v = JNull then ''null'' else sample_blob)"

definition sample_platform :: platform where
  "sample_platform =
     \<lparr>window_defined = True, getItem_raises = False, setItem_raises = (\<lambda>key v. False),
      JSON_parse = sample_parse, JSON_stringify = sample_stringify\<rparr>"


definition sample_store :: storage where
  "sample_store = Map.empty(STORAGE_KEY \<mapsto> sample_blob)"

definition null_store :: storage where
  "null_store = Map.empty(STORAGE_KEY \<mapsto> ''null'')"


definition corrupt_store :: storage where
  \<open>corrupt_store = Map.empty(STORAGE_KEY \<mapsto> ''[{"id":'')\<close>

text \<open>
  Runs on a storage that holds \<open>sample_blob\<close>. The user types before the first effect
  has run: \<open>sample_typed\<close>. In one run the user also adds the item before the first
  effect runs, \<open>sample_added\<close>; then the effect runs, \<open>sample_loaded\<close>, React commits
  the loaded collection and the second effect saves it, \<open>sample_mounted\<close>. In the other
  run the first effect runs after the typing, and the user adds the item before React
  has rendered again: the handler builds its collection from the \<^verbatim>\<open>todos\<close> of the first
  render, React commits that collection with \<^verbatim>\<open>hasLoaded\<close> from the load, and the second
  effect saves it, \<open>sample_stale\<close>.
\<close>

definition sample_entropy :: entropy where
  "sample_entropy = \<lparr>randomUUID = Some ''u1'', date_now = [], random_a = [], random_b = []\<rparr>"

definition sample_typed :: world where
  "sample_typed =
     (dispatch (ChangeInput ''Walk dog'') (init_world sample_store))
       \<lparr>shown := init_state\<lparr>inputValue := ''Walk dog''\<rparr>\<rparr>"

definition sample_added :: world where
  "sample_added =
     persistEffect sample_platform (handle (ClickAdd sample_entropy) (shown sample_typed))
       ((dispatch (ClickAdd sample_entropy) sample_typed)
          \<lparr>shown := handle (ClickAdd sample_entropy) (shown sample_typed)\<rparr>)"

definition sample_loaded :: world where
  "sample_loaded = loadEffect [sample_item] sample_added"

definition sample_mounted :: world where
  "sample_mounted =
     persistEffect sample_platform ((setTodos [sample_item] (shown sample_added))\<lparr>hasLoaded := True\<rparr>)
       (sample_loaded\<lparr>shown := (setTodos [sample_item] (shown sample_added))\<lparr>hasLoaded := True\<rparr>\<rparr>)"

definition sample_stale :: world where
  "sample_stale =
     persistEffect sample_platform
       ((handle (ClickAdd sample_entropy) (shown sample_typed))\<lparr>hasLoaded := True\<rparr>)
       ((dispatch (ClickAdd sample_entropy) (loadEffect [sample_item] sample_typed))
          \<lparr>shown := (handle (ClickAdd sample_entropy) (shown sample_typed))\<lparr>hasLoaded := True\<rparr>\<rparr>)"

section \<open>Properties of the handlers\<close>

lemma todos_setTodos: "todos (setTodos ts st) = ts"
  by (simp add: setTodos_def)

lemma map_unmatched:
  "i \<notin> id_t ` set ts \<Longrightarrow> map (\<lambda>todo. if id_t todo = i then f todo else todo) ts = ts"
  by (induction ts) auto

lemma filter_unmatched: "i \<notin> id_t ` set ts \<Longrightarrow> filter (\<lambda>todo. id_t todo \<noteq> i) ts = ts"
  by (induction ts) auto

text \<open>
  C4. When the trimmed input is not empty, \<^verbatim>\<open>addTodo\<close> appends exactly one item at the
  end of the collection, with the id that \<^verbatim>\<open>generateId\<close> returned for this call, the
  trimmed input as text and \<open>completed = False\<close>; the length and the active count
  both grow by one.
\<close>

theorem addTodo_appends:
  assumes "trim (inputValue st) \<noteq> []"
  shows "todos (addTodo e st) =
           todos st @ [\<lparr>id_t = generateId e, text_t = trim (inputValue st), completed = False\<rparr>]
         \<and> length (todos (addTodo e st)) = length (todos st) + 1
         \<and> activeCount (addTodo e st) = activeCount st + 1"
  using assms by (simp add: addTodo_def truthy_def setTodos_def activeCount_def Let_def)

theorem addTodo_appends_witness:
  "trim (inputValue (init_state\<lparr>inputValue := ''  Buy milk ''\<rparr>)) \<noteq> []
   \<and> todos (addTodo \<lparr>randomUUID = Some ''u1'', date_now = [], random_a = [], random_b = []\<rparr>
        (init_state\<lparr>inputValue := ''  Buy milk ''\<rparr>))
     = [\<lparr>id_t = ''u1'', text_t = ''Buy milk'', completed = False\<rparr>]
   \<and> activeCount (addTodo \<lparr>randomUUID = Some ''u1'', date_now = [], random_a = [], random_b = []\<rparr>
        (init_state\<lparr>inputValue := ''  Buy milk ''\<rparr>)) = 1"
proof -
  have ne: "trim (inputValue (init_state\<lparr>inputValue := ''  Buy milk ''\<rparr>)) \<noteq> []"
    by (simp add: trim_def is_space_def)
  show ?thesis
    using ne addTodo_appends [OF ne,
        of "\<lparr>randomUUID = Some ''u1'', date_now = [], random_a = [], random_b = []\<rparr>"]
    by (simp add: trim_def is_space_def generateId_def init_state_def activeCount_def)
qed

text \<open>
  C5. Toggling the same id twice gives the collection back, for every id and so for
  every id of an item of the collection; toggling an id that no item carries leaves
  the collection as it is.
\<close>

theorem toggleTodo_twice:
  "todos (toggleTodo i (toggleTodo i st)) = todos st
   \<and> (i \<notin> id_t ` set (todos st) \<longrightarrow> todos (toggleTodo i st) = todos st)"
proof
  have "map ((\<lambda>todo. if id_t todo = i then todo\<lparr>completed := \<not> completed todo\<rparr> else todo)
              \<circ> (\<lambda>todo. if id_t todo = i then todo\<lparr>completed := \<not> completed todo\<rparr> else todo))
          (todos st) = todos st"
    by (rule map_idI) simp
  then show "todos (toggleTodo i (toggleTodo i st)) = todos st"
    by (simp add: toggleTodo_def todos_setTodos)
next
  show "i \<notin> id_t ` set (todos st) \<longrightarrow> todos (toggleTodo i st) = todos st"
    by (simp add: toggleTodo_def todos_setTodos map_unmatched)
qed

theorem toggleTodo_twice_witness:
  "''a'' \<in> id_t ` set (todos (setTodos [\<lparr>id_t = ''a'', text_t = ''x'', completed = False\<rparr>] init_state))
   \<and> todos (toggleTodo ''a'' (setTodos [\<lparr>id_t = ''a'', text_t = ''x'', completed = False\<rparr>] init_state))
       = [\<lparr>id_t = ''a'', text_t = ''x'', completed = True\<rparr>]
   \<and> todos (toggleTodo ''a'' (toggleTodo ''a''
        (setTodos [\<lparr>id_t = ''a'', text_t = ''x'', completed = False\<rparr>] init_state)))
       = [\<lparr>id_t = ''a'', text_t = ''x'', completed = False\<rparr>]
   \<and> ''b'' \<notin> id_t ` set (todos (setTodos [\<lparr>id_t = ''a'', text_t = ''x'', completed = False\<rparr>] init_state))
   \<and> todos (toggleTodo ''b'' (setTodos [\<lparr>id_t = ''a'', text_t = ''x'', completed = False\<rparr>] init_state))
       = [\<lparr>id_t = ''a'', text_t = ''x'', completed = False\<rparr>]"
  using toggleTodo_twice [of "''a''" "setTodos [\<lparr>id_t = ''a'', text_t = ''x'', completed = False\<rparr>] init_state"]
    toggleTodo_twice [of "''b''" "setTodos [\<lparr>id_t = ''a'', text_t = ''x'', completed = False\<rparr>] init_state"]
  by (simp add: toggleTodo_def setTodos_def init_state_def)

text \<open>
  C6. With the filter \<^verbatim>\<open>"all"\<close> the view is the collection itself, so it has the same
  length. With \<^verbatim>\<open>"active"\<close> it is the items with \<open>completed = False\<close>, with
  \<^verbatim>\<open>"completed"\<close> those with \<open>completed = True\<close>. These two views split the collection:
  each occurrence of an item is in exactly one of them, and no item is in both. Every
  view keeps the order of the collection.
\<close>

theorem filteredTodos_views:
  "filteredTodos (st\<lparr>filter_st := FilterAll\<rparr>) = todos st
   \<and> length (filteredTodos (st\<lparr>filter_st := FilterAll\<rparr>)) = length (todos st)
   \<and> filteredTodos (st\<lparr>filter_st := FilterActive\<rparr>) = filter (\<lambda>t. completed t = False) (todos st)
   \<and> filteredTodos (st\<lparr>filter_st := FilterCompleted\<rparr>) = filter (\<lambda>t. completed t = True) (todos st)
   \<and> mset (filteredTodos (st\<lparr>filter_st := FilterActive\<rparr>))
       + mset (filteredTodos (st\<lparr>filter_st := FilterCompleted\<rparr>)) = mset (todos st)
   \<and> set (filteredTodos (st\<lparr>filter_st := FilterActive\<rparr>))
       \<inter> set (filteredTodos (st\<lparr>filter_st := FilterCompleted\<rparr>)) = {}
   \<and> subseq (filteredTodos (st\<lparr>filter_st := f\<rparr>)) (todos st)"
proof -
  have part: "mset (filter (\<lambda>t. \<not> completed t) ts) + mset (filter completed ts) = mset ts"
    for ts :: "todo list"
    by (induction ts) simp_all
  have disj: "{x \<in> set ts. \<not> completed x} \<inter> {x \<in> set ts. completed x} = {}"
    for ts :: "todo list"
    by auto
  show ?thesis
    by (simp add: filteredTodos_def part disj)
qed

theorem filteredTodos_views_witness:
  "filteredTodos (setTodos [\<lparr>id_t = ''1'', text_t = ''Buy milk'', completed = True\<rparr>,
                            \<lparr>id_t = ''2'', text_t = ''Walk dog'', completed = False\<rparr>]
                    init_state\<lparr>filter_st := FilterActive\<rparr>)
     = [\<lparr>id_t = ''2'', text_t = ''Walk dog'', completed = False\<rparr>]
   \<and> filteredTodos (setTodos [\<lparr>id_t = ''1'', text_t = ''Buy milk'', completed = True\<rparr>,
                            \<lparr>id_t = ''2'', text_t = ''Walk dog'', completed = False\<rparr>]
                    init_state\<lparr>filter_st := FilterCompleted\<rparr>)
     = [\<lparr>id_t = ''1'', text_t = ''Buy milk'', completed = True\<rparr>]"
  using filteredTodos_views [of "setTodos [\<lparr>id_t = ''1'', text_t = ''Buy milk'', completed = True\<rparr>,
                            \<lparr>id_t = ''2'', text_t = ''Walk dog'', completed = False\<rparr>] init_state"]
  by (simp add: setTodos_def init_state_def)

text \<open>
  C7. When the text trims to nothing (it is empty or white space only), \<^verbatim>\<open>addTodo\<close>
  returns the state it was given, and \<^verbatim>\<open>saveEdit\<close> on any id does what \<^verbatim>\<open>cancelEdit\<close>
  does: the collection and its identity stay as they were. Both handlers return a
  state in every case; there is no error result.
\<close>

theorem blank_text_is_noop:
  assumes "trim raw = []"
  shows "addTodo e (st\<lparr>inputValue := raw\<rparr>) = st\<lparr>inputValue := raw\<rparr>
         \<and> saveEdit i (st\<lparr>editValue := raw\<rparr>) = cancelEdit (st\<lparr>editValue := raw\<rparr>)
         \<and> todos (saveEdit i (st\<lparr>editValue := raw\<rparr>)) = todos st
         \<and> todos_ref (saveEdit i (st\<lparr>editValue := raw\<rparr>)) = todos_ref st"
  using assms by (simp add: addTodo_def saveEdit_def cancelEdit_def truthy_def)

theorem blank_text_is_noop_witness:
  "trim ''   '' = [] \<and> trim [] = []
   \<and> addTodo \<lparr>randomUUID = Some ''u1'', date_now = [], random_a = [], random_b = []\<rparr>
       (setTodos [\<lparr>id_t = ''a'', text_t = ''x'', completed = False\<rparr>] init_state\<lparr>inputValue := ''   ''\<rparr>)
     = setTodos [\<lparr>id_t = ''a'', text_t = ''x'', completed = False\<rparr>] init_state\<lparr>inputValue := ''   ''\<rparr>
   \<and> todos (saveEdit ''a''
       (setTodos [\<lparr>id_t = ''a'', text_t = ''x'', completed = False\<rparr>] init_state\<lparr>editValue := ''   ''\<rparr>))
     = [\<lparr>id_t = ''a'', text_t = ''x'', completed = False\<rparr>]"
proof -
  have blank: "trim ''   '' = []" "trim [] = []"
    by (simp_all add: trim_def is_space_def)
  show ?thesis
    using blank
      blank_text_is_noop [OF blank(1),
        of "\<lparr>randomUUID = Some ''u1'', date_now = [], random_a = [], random_b = []\<rparr>"
           "setTodos [\<lparr>id_t = ''a'', text_t = ''x'', completed = False\<rparr>] init_state" "''a''"]
    by (simp add: setTodos_def init_state_def cancelEdit_def)
qed

text \<open>
  C8. When the trimmed input is not empty, \<^verbatim>\<open>addTodo\<close> appends one new item, and when
  the id generated for it is not the id of an item already in the collection, deleting
  the id of that appended item gives the collection back.
\<close>

theorem delete_after_add:
  assumes "trim (inputValue st) \<noteq> []"
    and "generateId e \<notin> id_t ` set (todos st)"
  shows "todos (addTodo e st)
           = todos st @ [\<lparr>id_t = generateId e, text_t = trim (inputValue st), completed = False\<rparr>]
         \<and> id_t (last (todos (addTodo e st))) = generateId e
         \<and> todos (deleteTodo (id_t (last (todos (addTodo e st)))) (addTodo e st)) = todos st
         \<and> (\<exists>new. todos (addTodo e st) = todos st @ [new]
               \<and> todos (deleteTodo (id_t new) (addTodo e st)) = todos st)"
proof -
  let ?new = "\<lparr>id_t = generateId e, text_t = trim (inputValue st), completed = False\<rparr>"
  from assms(1) have added: "todos (addTodo e st) = todos st @ [?new]"
    by (simp add: addTodo_def truthy_def setTodos_def Let_def)
  then have last_id: "id_t (last (todos (addTodo e st))) = generateId e"
    by simp
  from assms(2) have "filter (\<lambda>todo. id_t todo \<noteq> generateId e) (todos st @ [?new]) = todos st"
    by (simp add: filter_unmatched)
  with added have removed: "todos (deleteTodo (generateId e) (addTodo e st)) = todos st"
    by (simp add: deleteTodo_def todos_setTodos)
  from added removed have "todos (addTodo e st) = todos st @ [?new]
      \<and> todos (deleteTodo (id_t ?new) (addTodo e st)) = todos st"
    by simp
  then have "\<exists>new. todos (addTodo e st) = todos st @ [new]
      \<and> todos (deleteTodo (id_t new) (addTodo e st)) = todos st"
    by (rule exI)
  with added last_id removed show ?thesis
    by simp
qed

theorem delete_after_add_witness:
  "trim (inputValue (setTodos [\<lparr>id_t = ''a'', text_t = ''x'', completed = True\<rparr>] init_state
            \<lparr>inputValue := ''Walk dog''\<rparr>)) \<noteq> []
   \<and> generateId \<lparr>randomUUID = None, date_now = ''17'', random_a = ''k3'', random_b = ''z9''\<rparr>
       \<notin> id_t ` set (todos (setTodos [\<lparr>id_t = ''a'', text_t = ''x'', completed = True\<rparr>] init_state
            \<lparr>inputValue := ''Walk dog''\<rparr>))
   \<and> todos (addTodo \<lparr>randomUUID = None, date_now = ''17'', random_a = ''k3'', random_b = ''z9''\<rparr>
           (setTodos [\<lparr>id_t = ''a'', text_t = ''x'', completed = True\<rparr>] init_state
              \<lparr>inputValue := ''Walk dog''\<rparr>))
     = [\<lparr>id_t = ''a'', text_t = ''x'', completed = True\<rparr>,
        \<lparr>id_t = ''17-k3-z9'', text_t = ''Walk dog'', completed = False\<rparr>]
   \<and> todos (deleteTodo ''17-k3-z9''
        (addTodo \<lparr>randomUUID = None, date_now = ''17'', random_a = ''k3'', random_b = ''z9''\<rparr>
           (setTodos [\<lparr>id_t = ''a'', text_t = ''x'', completed = True\<rparr>] init_state
              \<lparr>inputValue := ''Walk dog''\<rparr>)))
     = [\<lparr>id_t = ''a'', text_t = ''x'', completed = True\<rparr>]"
proof -
  let ?e = "\<lparr>randomUUID = None, date_now = ''17'', random_a = ''k3'', random_b = ''z9''\<rparr>"
  let ?st = "setTodos [\<lparr>id_t = ''a'', text_t = ''x'', completed = True\<rparr>] init_state
               \<lparr>inputValue := ''Walk dog''\<rparr>"
  have ne: "trim (inputValue ?st) \<noteq> []"
    by (simp add: trim_def is_space_def)
  have fresh: "generateId ?e \<notin> id_t ` set (todos ?st)"
    by (simp add: generateId_def setTodos_def init_state_def)
  have gen: "generateId ?e = ''17-k3-z9''"
    by (simp add: generateId_def)
  have trimmed: "trim ''Walk dog'' = ''Walk dog''"
    by (simp add: trim_def is_space_def)
  note round_trip = delete_after_add [OF ne fresh]
  have added: "todos (addTodo ?e ?st)
          = todos ?st @ [\<lparr>id_t = generateId ?e, text_t = trim (inputValue ?st), completed = False\<rparr>]"
    by (rule round_trip [THEN conjunct1])
  have last_id: "id_t (last (todos (addTodo ?e ?st))) = generateId ?e"
    by (rule round_trip [THEN conjunct2, THEN conjunct1])
  have removed: "todos (deleteTodo (id_t (last (todos (addTodo ?e ?st)))) (addTodo ?e ?st)) = todos ?st"
    by (rule round_trip [THEN conjunct2, THEN conjunct2, THEN conjunct1])
  from removed have removed': "todos (deleteTodo ''17-k3-z9'' (addTodo ?e ?st)) = todos ?st"
    by (simp only: last_id gen)
  from added have added': "todos (addTodo ?e ?st)
          = todos ?st @ [\<lparr>id_t = ''17-k3-z9'', text_t = ''Walk dog'', completed = False\<rparr>]"
    by (simp add: gen trimmed)
  show ?thesis
    using ne fresh added' removed'
    by (simp add: setTodos_def init_state_def)
qed

text \<open>Without that proviso the round trip is lost: the deletion takes the older item too.\<close>

lemma delete_after_add_collision:
  assumes "trim (inputValue st) \<noteq> []"
    and "generateId e \<in> id_t ` set (todos st)"
  shows "length (todos (deleteTodo (generateId e) (addTodo e st))) < length (todos st)"
proof -
  from assms(2) obtain t where "t \<in> set (todos st)" "\<not> id_t t \<noteq> generateId e"
    by auto
  then have "length (filter (\<lambda>todo. id_t todo \<noteq> generateId e) (todos st)) < length (todos st)"
    by (rule length_filter_less)
  with assms(1) show ?thesis
    by (simp add: addTodo_def deleteTodo_def truthy_def setTodos_def Let_def)
qed

text \<open>
  C9. Both ways the component offers to start an edit do nothing for a completed item:
  the state stays as it is. For an item that is not completed they enter the edit
  session of that item, with its id and its text. \<^verbatim>\<open>startEdit\<close> has no check of its
  own; the check sits at both places that call it. And of all that the markup can
  send, nothing else starts an edit: when a handler leaves \<open>editingId\<close> set and
  changed, it was one of these two, for an item that is not completed.
\<close>

theorem startEdit_only_when_not_completed:
  "(completed todo \<longrightarrow> onDoubleClick_text todo st = st \<and> onClick_edit todo st = st)
   \<and> (\<not> completed todo \<longrightarrow>
        onDoubleClick_text todo st = startEdit todo st
        \<and> onClick_edit todo st = startEdit todo st
        \<and> editingId (startEdit todo st) = Some (id_t todo)
        \<and> editValue (startEdit todo st) = text_t todo
        \<and> todos (startEdit todo st) = todos st)
   \<and> (editingId (handle ev st) \<noteq> None \<and> editingId (handle ev st) \<noteq> editingId st \<longrightarrow>
        (\<exists>item. (ev = DoubleClickText item \<or> ev = ClickEdit item) \<and> \<not> completed item
           \<and> editingId (handle ev st) = Some (id_t item)
           \<and> editValue (handle ev st) = text_t item))"
proof (intro conjI)
  show "editingId (handle ev st) \<noteq> None \<and> editingId (handle ev st) \<noteq> editingId st \<longrightarrow>
        (\<exists>item. (ev = DoubleClickText item \<or> ev = ClickEdit item) \<and> \<not> completed item
           \<and> editingId (handle ev st) = Some (id_t item)
           \<and> editValue (handle ev st) = text_t item)"
    by (cases ev)
      (auto simp: handleKeyDown_def addTodo_def setTodos_def Let_def onChange_checkbox_def
        toggleTodo_def onDoubleClick_text_def onClick_edit_def startEdit_def deleteTodo_def
        handleEditKeyDown_def saveEdit_def cancelEdit_def split: if_splits)
qed (simp_all add: onDoubleClick_text_def onClick_edit_def startEdit_def)

theorem startEdit_only_when_not_completed_witness:
  "completed \<lparr>id_t = ''a'', text_t = ''x'', completed = True\<rparr>
   \<and> onDoubleClick_text \<lparr>id_t = ''a'', text_t = ''x'', completed = True\<rparr> init_state = init_state
   \<and> onClick_edit \<lparr>id_t = ''a'', text_t = ''x'', completed = True\<rparr> init_state = init_state
   \<and> \<not> completed \<lparr>id_t = ''b'', text_t = ''y'', completed = False\<rparr>
   \<and> editingId (onClick_edit \<lparr>id_t = ''b'', text_t = ''y'', completed = False\<rparr> init_state) = Some ''b''
   \<and> editValue (onDoubleClick_text \<lparr>id_t = ''b'', text_t = ''y'', completed = False\<rparr> init_state) = ''y''"
  using startEdit_only_when_not_completed [of "\<lparr>id_t = ''a'', text_t = ''x'', completed = True\<rparr>" init_state]
    startEdit_only_when_not_completed [of "\<lparr>id_t = ''b'', text_t = ''y'', completed = False\<rparr>" init_state]
  by (simp add: onDoubleClick_text_def onClick_edit_def startEdit_def)

text \<open>
  C10. \<^verbatim>\<open>saveEdit\<close> with an id that no item carries leaves the collection as it is,
  whatever the edit buffer holds, and ends the edit session: \<open>editingId\<close> becomes
  \<open>None\<close> and the buffer is cleared.
\<close>

theorem saveEdit_missing_id:
  assumes "i \<notin> id_t ` set (todos st)"
  shows "todos (saveEdit i st) = todos st
         \<and> editingId (saveEdit i st) = None
         \<and> editValue (saveEdit i st) = []"
  using assms by (simp add: saveEdit_def cancelEdit_def setTodos_def map_unmatched)

theorem saveEdit_missing_id_witness:
  "''zz'' \<notin> id_t ` set (todos (setTodos [\<lparr>id_t = ''a'', text_t = ''x'', completed = False\<rparr>] init_state
              \<lparr>editingId := Some ''zz'', editValue := ''new text''\<rparr>))
   \<and> trim ''new text'' \<noteq> []
   \<and> todos (saveEdit ''zz'' (setTodos [\<lparr>id_t = ''a'', text_t = ''x'', completed = False\<rparr>] init_state
              \<lparr>editingId := Some ''zz'', editValue := ''new text''\<rparr>))
     = [\<lparr>id_t = ''a'', text_t = ''x'', completed = False\<rparr>]
   \<and> editingId (saveEdit ''zz'' (setTodos [\<lparr>id_t = ''a'', text_t = ''x'', completed = False\<rparr>] init_state
              \<lparr>editingId := Some ''zz'', editValue := ''new text''\<rparr>)) = None"
proof -
  let ?st = "setTodos [\<lparr>id_t = ''a'', text_t = ''x'', completed = False\<rparr>] init_state
               \<lparr>editingId := Some ''zz'', editValue := ''new text''\<rparr>"
  have missing: "''zz'' \<notin> id_t ` set (todos ?st)"
    by (simp add: setTodos_def init_state_def)
  have ne: "trim ''new text'' \<noteq> []"
    by (simp add: trim_def is_space_def)
  show ?thesis
    using missing ne saveEdit_missing_id [OF missing]
    by (simp add: setTodos_def init_state_def)
qed

section \<open>Properties of the store adapter\<close>



lemma loadTodosFromStorage_returns: "\<exists>v. loadTodosFromStorage p s = Inr v"
  by (auto simp: loadTodosFromStorage_def try_catch_def localStorage_getItem_def
      split: sum.splits option.splits)

lemma saveTodosToStorage_returns: "\<exists>s'. saveTodosToStorage p s v = Inr s'"
  by (auto simp: saveTodosToStorage_def try_catch_def localStorage_setItem_def split: sum.splits)

lemma saveTodosToStorage_swallows:
  "\<not> window_defined p \<or> setItem_raises p STORAGE_KEY (JSON_stringify p v) \<Longrightarrow>
   saveTodosToStorage p s v = Inr s"
  by (auto simp: saveTodosToStorage_def try_catch_def localStorage_setItem_def)

lemma loadTodosFromStorage_parsed:
  assumes "window_defined p" and "\<not> getItem_raises p"
    and "s STORAGE_KEY = Some blob" and "blob \<noteq> []" and "JSON_parse p blob = Inr v"
  shows "loadTodosFromStorage p s = Inr v"
  using assms
  by (simp add: loadTodosFromStorage_def try_catch_def localStorage_getItem_def truthy_def)

lemma sample_load: "loadTodosFromStorage sample_platform sample_store = Inr (todos_val [sample_item])"
  by (simp add: loadTodosFromStorage_def sample_platform_def sample_store_def try_catch_def
      localStorage_getItem_def truthy_def sample_parse_def sample_blob_def)




text \<open>
  C2, as the code has it. \<^verbatim>\<open>loadTodosFromStorage\<close> always returns a value and never
  raises. It returns the empty collection when there is no \<^verbatim>\<open>window\<close>, when reading
  the storage raises, when the key is absent or holds the empty string, and when
  \<^verbatim>\<open>JSON.parse\<close> raises on the text stored.
\<close>

theorem loadTodosFromStorage_failures:
  "(\<exists>v. loadTodosFromStorage p s = Inr v)
   \<and> (\<not> window_defined p \<longrightarrow> loadTodosFromStorage p s = Inr (JArr []))
   \<and> (getItem_raises p \<longrightarrow> loadTodosFromStorage p s = Inr (JArr []))
   \<and> (s STORAGE_KEY = None \<longrightarrow> loadTodosFromStorage p s = Inr (JArr []))
   \<and> (s STORAGE_KEY = Some [] \<longrightarrow> loadTodosFromStorage p s = Inr (JArr []))
   \<and> (\<forall>blob e. s STORAGE_KEY = Some blob \<and> JSON_parse p blob = Inl e
         \<longrightarrow> loadTodosFromStorage p s = Inr (JArr []))"
  by (auto simp: loadTodosFromStorage_def try_catch_def localStorage_getItem_def truthy_def
      split: sum.splits option.splits)

theorem loadTodosFromStorage_failures_witness:
  \<open>corrupt_store STORAGE_KEY = Some ''[{"id":''
   \<and> JSON_parse sample_platform ''[{"id":'' = Inl SyntaxError
   \<and> loadTodosFromStorage sample_platform corrupt_store = Inr (JArr [])
   \<and> \<not> window_defined (sample_platform\<lparr>window_defined := False\<rparr>)
   \<and> loadTodosFromStorage (sample_platform\<lparr>window_defined := False\<rparr>) sample_store = Inr (JArr [])
   \<and> getItem_raises (sample_platform\<lparr>getItem_raises := True\<rparr>)
   \<and> loadTodosFromStorage (sample_platform\<lparr>getItem_raises := True\<rparr>) sample_store = Inr (JArr [])
   \<and> Map.empty STORAGE_KEY = None
   \<and> loadTodosFromStorage sample_platform Map.empty = Inr (JArr [])\<close>
proof -
  have stored: \<open>corrupt_store STORAGE_KEY = Some ''[{"id":''\<close>
    by (simp add: corrupt_store_def)
  have raises: \<open>JSON_parse sample_platform ''[{"id":'' = Inl SyntaxError\<close>
    by (simp add: sample_platform_def sample_parse_def sample_blob_def)
  show ?thesis
    using stored raises
      loadTodosFromStorage_failures [of sample_platform corrupt_store]
      loadTodosFromStorage_failures [of "sample_platform\<lparr>window_defined := False\<rparr>" sample_store]
      loadTodosFromStorage_failures [of "sample_platform\<lparr>getItem_raises := True\<rparr>" sample_store]
      loadTodosFromStorage_failures [of sample_platform Map.empty]
    by simp
qed

text \<open>
  C2, as the claim has it, fails. The storage holds the text \<^verbatim>\<open>null\<close>. \<^verbatim>\<open>JSON.parse\<close>
  accepts it and gives \<^verbatim>\<open>null\<close>, which is not an array of records, and
  \<^verbatim>\<open>loadTodosFromStorage\<close> returns that value, not the empty collection.
\<close>

theorem loadTodosFromStorage_wrong_shape:
  "null_store STORAGE_KEY = Some ''null''
   \<and> JSON_parse sample_platform ''null'' = Inr JNull
   \<and> loadTodosFromStorage sample_platform null_store = Inr JNull
   \<and> loadTodosFromStorage sample_platform null_store \<noteq> Inr (JArr [])"
proof -
  have stored: "null_store STORAGE_KEY = Some ''null''"
    by (simp add: null_store_def)
  have parsed: "JSON_parse sample_platform ''null'' = Inr JNull"
    by (simp add: sample_platform_def sample_parse_def sample_blob_def)
  have "loadTodosFromStorage sample_platform null_store = Inr JNull"
    using stored parsed
    by (intro loadTodosFromStorage_parsed [where blob = "''null''"])
      (simp_all add: sample_platform_def)
  with stored parsed show ?thesis
    by simp
qed

section \<open>Start-up order\<close>

lemma handle_hasLoaded: "hasLoaded (handle ev st) = hasLoaded st"
  by (cases ev)
    (simp_all add: handleKeyDown_def addTodo_def setTodos_def Let_def onChange_checkbox_def
      toggleTodo_def onDoubleClick_text_def onClick_edit_def startEdit_def deleteTodo_def
      handleEditKeyDown_def saveEdit_def cancelEdit_def)

lemma persistEffect_not_loaded: "\<not> hasLoaded st \<Longrightarrow> persistEffect p st w = w"
  by (simp add: persistEffect_def)

lemma persistEffect_calls: "\<exists>cs. calls (persistEffect p st w) = calls w @ cs"
  by (simp add: persistEffect_def)

lemma renders_from_not_loaded:
  assumes "renders_from srcs st'" and "\<forall>s \<in> set srcs. \<not> hasLoaded s"
  shows "\<not> hasLoaded st'"
  using assms by (auto simp: renders_from_def)

text \<open>The first effect can always run: the load never raises.\<close>

lemma load_enabled: "\<exists>w'. step p w w' \<and> calls w' = calls w @ [LoadCall]"
proof -
  obtain v where v: "loadTodosFromStorage p (store w) = Inr v"
    using loadTodosFromStorage_returns by blast
  show ?thesis
  proof (cases "v \<in> range todos_val")
    case True
    then obtain ts where "v = todos_val ts"
      by blast
    with v have "step p w (loadEffect ts w)"
      by (intro step.load_effect) simp
    moreover have "calls (loadEffect ts w) = calls w @ [LoadCall]"
      by (simp add: loadEffect_def)
    ultimately show ?thesis
      by blast
  next
    case False
    with v have "step p w (w\<lparr>calls := calls w @ [LoadCall], untyped := True\<rparr>)"
      by (intro step.load_effect_untyped)
    moreover have "calls (w\<lparr>calls := calls w @ [LoadCall], untyped := True\<rparr>) = calls w @ [LoadCall]"
      by simp
    ultimately show ?thesis
      by blast
  qed
qed

lemma load_first_init: "load_first s0 (init_world s0)"
  by (simp add: load_first_def init_world_def init_state_def)

lemma load_first_step:
  assumes "load_first s0 w" and "step p w w'"
  shows "load_first s0 w'"
  using assms(2)
proof cases
  case (handler ev)
  with assms(1) show ?thesis
    by (auto simp: load_first_def dispatch_def handle_hasLoaded)
next
  case (load_effect ts)
  with assms(1) show ?thesis
    by (auto simp: load_first_def loadEffect_def)
next
  case (load_effect_untyped v)
  with assms(1) show ?thesis
    by (auto simp: load_first_def)
next
  case (untyped_save v s')
  with assms(1) show ?thesis
    by (auto simp: load_first_def)
next
  case (commit st')
  show ?thesis
  proof (cases "calls w = []")
    case True
    with assms(1) have quiet: "store w = s0" "\<not> untyped w" "\<not> hasLoaded (shown w)"
      "\<forall>s \<in> set (issued w). \<not> hasLoaded s"
      by (simp_all add: load_first_def)
    then have "\<forall>s \<in> set (init_state # shown w # issued w). \<not> hasLoaded s"
      by (simp add: init_state_def)
    with commit(2) have "\<not> hasLoaded st'"
      by (rule renders_from_not_loaded)
    with True quiet show ?thesis
      by (simp add: commit(1) load_first_def)
  next
    case False
    with assms(1) show ?thesis
      by (simp add: commit(1) load_first_def)
  qed
next
  case persist
  show ?thesis
  proof (cases "calls w = []")
    case True
    with assms(1) have "\<not> hasLoaded (shown w)"
      by (simp add: load_first_def)
    with assms(1) show ?thesis
      by (simp add: persist persistEffect_not_loaded)
  next
    case False
    with assms(1) obtain cs where "calls w = LoadCall # cs"
      by (auto simp: load_first_def)
    moreover obtain cs' where "calls (persistEffect p (shown w) w) = calls w @ cs'"
      using persistEffect_calls by blast
    ultimately show ?thesis
      by (simp add: persist load_first_def)
  qed
qed

lemma reachable_load_first: "reachable p s0 w \<Longrightarrow> load_first s0 w"
  by (induction rule: reachable.induct) (auto intro: load_first_init load_first_step)

lemma sample_typed_simps:
  "calls sample_typed = []" "store sample_typed = sample_store"
  "shown sample_typed = init_state\<lparr>inputValue := ''Walk dog''\<rparr>"
  "issued sample_typed = [init_state\<lparr>inputValue := ''Walk dog''\<rparr>]"
  by (simp_all add: sample_typed_def dispatch_def init_world_def)

lemma sample_click:
  "addTodo sample_entropy (init_state\<lparr>inputValue := ''Walk dog''\<rparr>)
     = \<lparr>todos = [\<lparr>id_t = ''u1'', text_t = ''Walk dog'', completed = False\<rparr>], todos_ref = Suc 0,
        inputValue = [], filter_st = FilterAll, editingId = None, editValue = [],
        hasLoaded = False\<rparr>"
  by (simp add: addTodo_def truthy_def trim_def is_space_def setTodos_def
      init_state_def Let_def generateId_def sample_entropy_def)

lemma sample_added_simps:
  "calls sample_added = []" "store sample_added = sample_store"
  "shown sample_added
     = \<lparr>todos = [\<lparr>id_t = ''u1'', text_t = ''Walk dog'', completed = False\<rparr>], todos_ref = Suc 0,
        inputValue = [], filter_st = FilterAll, editingId = None, editValue = [],
        hasLoaded = False\<rparr>"
  by (simp_all add: sample_added_def sample_click persistEffect_def dispatch_def
      sample_typed_simps)

lemma sample_loaded_simps:
  "calls sample_loaded = [LoadCall]" "store sample_loaded = sample_store"
  "shown sample_loaded = shown sample_added"
  "hd (issued sample_loaded) = (setTodos [sample_item] (shown sample_added))\<lparr>hasLoaded := True\<rparr>"
  by (simp_all add: sample_loaded_def loadEffect_def sample_added_simps)

lemma sample_mounted_simps:
  "calls sample_mounted = [LoadCall, SaveCall (todos_val [sample_item])]"
  "todos (shown sample_mounted) = [sample_item]"
  "store sample_mounted STORAGE_KEY = Some sample_blob"
  by (simp_all add: sample_mounted_def sample_loaded_simps persistEffect_def setTodos_def
      saveTodosToStorage_def sample_platform_def try_catch_def localStorage_setItem_def
      sample_stringify_def todos_val_def)

lemma sample_typed_reachable: "reachable sample_platform sample_store sample_typed"
proof -
  have r0: "reachable sample_platform sample_store (init_world sample_store)"
    by (rule reach_init)
  have "step sample_platform (init_world sample_store)
          (dispatch (ChangeInput ''Walk dog'') (init_world sample_store))"
    by (rule step.handler)
  with r0 have r1: "reachable sample_platform sample_store
                      (dispatch (ChangeInput ''Walk dog'') (init_world sample_store))"
    by (rule reach_step)
  have "step sample_platform (dispatch (ChangeInput ''Walk dog'') (init_world sample_store))
          sample_typed"
    unfolding sample_typed_def
    by (rule step.commit) (simp add: renders_from_def dispatch_def init_world_def init_state_def)
  with r1 show ?thesis
    by (rule reach_step)
qed

lemma sample_added_reachable: "reachable sample_platform sample_store sample_added"
proof -
  let ?queued = "dispatch (ClickAdd sample_entropy) sample_typed"
  let ?shown = "?queued\<lparr>shown := handle (ClickAdd sample_entropy) (shown sample_typed)\<rparr>"
  have "step sample_platform sample_typed ?queued"
    by (rule step.handler)
  with sample_typed_reachable have r1: "reachable sample_platform sample_store ?queued"
    by (rule reach_step)
  have "step sample_platform ?queued ?shown"
    by (rule step.commit) (simp add: renders_from_def dispatch_def)
  with r1 have r2: "reachable sample_platform sample_store ?shown"
    by (rule reach_step)
  have "step sample_platform ?shown (persistEffect sample_platform (shown ?shown) ?shown)"
    by (rule step.persist)
  then have "step sample_platform ?shown sample_added"
    by (simp add: sample_added_def)
  with r2 show ?thesis
    by (rule reach_step)
qed

lemma sample_loaded_reachable: "reachable sample_platform sample_store sample_loaded"
proof -
  have "step sample_platform sample_added sample_loaded"
    unfolding sample_loaded_def
    by (rule step.load_effect) (simp add: sample_added_simps sample_load)
  with sample_added_reachable show ?thesis
    by (rule reach_step)
qed

lemma sample_mounted_reachable: "reachable sample_platform sample_store sample_mounted"
proof -
  let ?st = "(setTodos [sample_item] (shown sample_added))\<lparr>hasLoaded := True\<rparr>"
  let ?shown = "sample_loaded\<lparr>shown := ?st\<rparr>"
  have "step sample_platform sample_loaded ?shown"
    by (rule step.commit) (simp add: renders_from_def sample_loaded_def loadEffect_def)
  with sample_loaded_reachable have r1: "reachable sample_platform sample_store ?shown"
    by (rule reach_step)
  have "step sample_platform ?shown (persistEffect sample_platform (shown ?shown) ?shown)"
    by (rule step.persist)
  then have "step sample_platform ?shown sample_mounted"
    by (simp add: sample_mounted_def)
  with r1 show ?thesis
    by (rule reach_step)
qed

text \<open>
  Two runs that React can choose are among the runs here. In the first, a handler
  runs after the load, builds its collection from the \<^verbatim>\<open>todos\<close> of the first render and
  wins over the loaded collection, so that the save that follows the load writes the
  handler's collection over what was stored. In the second, the first effect runs
  twice. In both, every save still comes after a load.
\<close>

lemma stale_collection_saved:
  "reachable sample_platform sample_store sample_stale
   \<and> calls sample_stale
       = [LoadCall, SaveCall (todos_val [\<lparr>id_t = ''u1'', text_t = ''Walk dog'', completed = False\<rparr>])]"
proof -
  let ?loaded = "loadEffect [sample_item] sample_typed"
  let ?queued = "dispatch (ClickAdd sample_entropy) ?loaded"
  let ?st = "(handle (ClickAdd sample_entropy) (shown sample_typed))\<lparr>hasLoaded := True\<rparr>"
  let ?shown = "?queued\<lparr>shown := ?st\<rparr>"
  have "step sample_platform sample_typed ?loaded"
    by (rule step.load_effect) (simp add: sample_typed_simps sample_load)
  with sample_typed_reachable have r1: "reachable sample_platform sample_store ?loaded"
    by (rule reach_step)
  have "step sample_platform ?loaded ?queued"
    by (rule step.handler)
  with r1 have r2: "reachable sample_platform sample_store ?queued"
    by (rule reach_step)
  have "step sample_platform ?queued ?shown"
    by (rule step.commit)
      (simp add: renders_from_def dispatch_def loadEffect_def setTodos_def)
  with r2 have r3: "reachable sample_platform sample_store ?shown"
    by (rule reach_step)
  have "step sample_platform ?shown (persistEffect sample_platform (shown ?shown) ?shown)"
    by (rule step.persist)
  then have "step sample_platform ?shown sample_stale"
    by (simp add: sample_stale_def)
  with r3 have "reachable sample_platform sample_store sample_stale"
    by (rule reach_step)
  moreover have "calls sample_stale
       = [LoadCall, SaveCall (todos_val [\<lparr>id_t = ''u1'', text_t = ''Walk dog'', completed = False\<rparr>])]"
    by (simp add: sample_stale_def persistEffect_def dispatch_def loadEffect_def
        sample_typed_simps sample_click)
  ultimately show ?thesis
    by simp
qed

lemma load_runs_twice:
  "reachable sample_platform sample_store (loadEffect [sample_item] sample_loaded)
   \<and> calls (loadEffect [sample_item] sample_loaded) = [LoadCall, LoadCall]"
proof -
  have "step sample_platform sample_loaded (loadEffect [sample_item] sample_loaded)"
    by (rule step.load_effect) (simp add: sample_loaded_simps sample_load)
  with sample_loaded_reachable
  have "reachable sample_platform sample_store (loadEffect [sample_item] sample_loaded)"
    by (rule reach_step)
  then show ?thesis
    by (simp add: loadEffect_def sample_loaded_simps)
qed

text \<open>
  C3. In every world the component can reach, from any storage, on any platform and
  in whatever order React renders and runs the effects, a save call has a load call
  before it; the load returns before anything else happens, so that load has
  completed. As long as no load call has been made, no call at all has reached the
  adapter and the storage is the one the component started with, so the empty initial
  collection, or what a handler made of it, has not been written over what was stored.
  And a render with \<^verbatim>\<open>hasLoaded\<close> true is shown only after a load call.
\<close>

theorem no_save_before_load:
  assumes "reachable p s0 w"
  shows "(\<forall>pre v post. calls w = pre @ SaveCall v # post \<longrightarrow> LoadCall \<in> set pre)
         \<and> (LoadCall \<notin> set (calls w) \<longrightarrow> calls w = [] \<and> store w = s0)
         \<and> (hasLoaded (shown w) \<longrightarrow> LoadCall \<in> set (calls w))"
proof -
  from assms have inv: "load_first s0 w"
    by (rule reachable_load_first)
  show ?thesis
  proof (cases "calls w = []")
    case True
    with inv show ?thesis
      by (simp add: load_first_def)
  next
    case False
    with inv obtain cs where cs: "calls w = LoadCall # cs"
      by (auto simp: load_first_def)
    have "LoadCall \<in> set pre" if "calls w = pre @ SaveCall v # post" for pre v post
      using that cs by (cases pre) auto
    with cs show ?thesis
      by simp
  qed
qed

theorem no_save_before_load_witness:
  "reachable sample_platform sample_store sample_added
   \<and> todos (shown sample_added) = [\<lparr>id_t = ''u1'', text_t = ''Walk dog'', completed = False\<rparr>]
   \<and> LoadCall \<notin> set (calls sample_added)
   \<and> calls sample_added = []
   \<and> store sample_added = sample_store
   \<and> reachable sample_platform sample_store sample_mounted
   \<and> calls sample_mounted = [LoadCall] @ SaveCall (todos_val [sample_item]) # []
   \<and> LoadCall \<in> set [LoadCall]
   \<and> store sample_mounted STORAGE_KEY = Some sample_blob"
  using sample_added_reachable sample_mounted_reachable
    no_save_before_load [OF sample_added_reachable]
    no_save_before_load [OF sample_mounted_reachable]
  by (simp add: sample_added_simps sample_mounted_simps)

end
